theory Spec2Isabelle
  imports Complex_Main "HOL-Library.AList"
begin

section \<open>The SSE decoder of the Checkmate client (parseSSEStream)\<close>

text \<open>
  \<^verbatim>\<open>src/src/checkmate-client.ts\<close>, \<^verbatim>\<open>parseSSEStream\<close>. The text of the stream is a
  \<open>string\<close>; a chunk is the text \<^verbatim>\<open>decoder.decode(value, { stream: true })\<close> returns for
  one \<^verbatim>\<open>reader.read()\<close>. \<^verbatim>\<open>JSON.parse\<close> is a parameter \<open>parse\<close> of the model: \<open>None\<close>
  stands for the \<^verbatim>\<open>SyntaxError\<close> it throws.
\<close>

definition newline :: char where
  "newline = CHR 0x0A"

text \<open>\<^verbatim>\<open>buffer.split("\n")\<close>: the pieces between the newlines, never an empty array.\<close>

fun split_nl :: "string \<Rightarrow> string list" where
  "split_nl [] = [[]]"
| "split_nl (c # cs) =
     (if c = newline then [] # split_nl cs
      else (case split_nl cs of
              [] \<Rightarrow> [[c]]
            | l # ls \<Rightarrow> (c # l) # ls))"

text \<open>\<^verbatim>\<open>line.startsWith(p)\<close>.\<close>

definition startsWith :: "string \<Rightarrow> string \<Rightarrow> bool" where
  "startsWith p s = (take (length p) s = p)"

text \<open>
  \<^verbatim>\<open>String.prototype.trim\<close> strips white space and line terminators from both ends; these
  are the ones a \<open>char\<close> can hold (tab, line feed, vertical tab, form feed, carriage return,
  space, no-break space).
\<close>

definition is_white_space :: "char \<Rightarrow> bool" where
  "is_white_space c =
     (c \<in> {CHR 0x09, CHR 0x0A, CHR 0x0B, CHR 0x0C, CHR 0x0D, CHR 0x20, CHR 0xA0})"

definition trim :: "string \<Rightarrow> string" where
  "trim s = rev (dropWhile is_white_space (rev (dropWhile is_white_space s)))"

text \<open>What the generator does that its consumer or its transport can see.\<close>

datatype 'e effect =
    GetReader           \<comment> \<open>\<^verbatim>\<open>response.body.getReader()\<close>\<close>
  | ReadChunk           \<comment> \<open>\<^verbatim>\<open>await reader.read()\<close>\<close>
  | Yield 'e            \<comment> \<open>\<^verbatim>\<open>yield event\<close>\<close>
  | ConsoleError string \<comment> \<open>\<^verbatim>\<open>console.error("Failed to parse ...", data, e)\<close>\<close>
  | ReleaseLock         \<comment> \<open>\<^verbatim>\<open>reader.releaseLock()\<close>\<close>
  | CancelReader        \<comment> \<open>\<^verbatim>\<open>reader.cancel()\<close>, the transport's cancellation\<close>

text \<open>
  The body of both the line loop and the final-buffer check:
  \<^verbatim>\<open>
  if (line.startsWith("data: ")) {
    const data = line.slice(6).trim();
    if (data) {
      try { const event = JSON.parse(data); yield event; }
      catch (e) { console.error("Failed to parse SSE event:", data, e); }
    }
  }
  \<close>
\<close>

definition handle_line :: "(string \<Rightarrow> 'e option) \<Rightarrow> string \<Rightarrow> 'e effect list" where
  "handle_line parse line =
     (if startsWith ''data: '' line then
        (let data = trim (drop 6 line) in
         if data \<noteq> [] then
           (case parse data of
              Some event \<Rightarrow> [Yield event]
            | None \<Rightarrow> [ConsoleError data])
         else [])
      else [])"

text \<open>How the transport's stream ends: \<^verbatim>\<open>read()\<close> resolves with \<^verbatim>\<open>done\<close>, or rejects.\<close>

datatype stream_end = Closed | Failed string

text \<open>
  The \<^verbatim>\<open>while (true)\<close> loop with the final-buffer check after it. The stream is the list of
  chunks the reads return and the way it ends, so the recursion is on the chunks. The result
  is the effects in order and the error that escapes, if one does.
  \<^verbatim>\<open>
  const { done, value } = await reader.read();
  if (done) break;
  buffer += decoder.decode(value, { stream: true });
  const lines = buffer.split("\n");
  buffer = lines.pop() || "";
  for (const line of lines) { ... }
  \<close>
\<close>

fun read_loop ::
  "(string \<Rightarrow> 'e option) \<Rightarrow> string \<Rightarrow> string list \<Rightarrow> stream_end \<Rightarrow> 'e effect list \<times> string option"
where
  "read_loop parse buffer [] Closed = (ReadChunk # handle_line parse buffer, None)"
| "read_loop parse buffer [] (Failed msg) = ([ReadChunk], Some msg)"
| "read_loop parse buffer (chunk # chunks) fin =
     (let lines = split_nl (buffer @ chunk);
          buffer' = last lines;
          (rest, err) = read_loop parse buffer' chunks fin
      in (ReadChunk # concat (map (handle_line parse) (butlast lines)) @ rest, err))"

text \<open>
  The generator run to its end. Without a body it throws before the \<^verbatim>\<open>try\<close>; with one, the
  \<^verbatim>\<open>finally\<close> releases the lock whether the loop ended or a read rejected.
\<close>

record response_body =
  chunks :: "string list"
  ending :: stream_end

definition parseSSEStream ::
  "(string \<Rightarrow> 'e option) \<Rightarrow> response_body option \<Rightarrow> 'e effect list \<times> string option"
where
  "parseSSEStream parse body =
     (case body of
        None \<Rightarrow> ([], Some ''No response body'')
      | Some b \<Rightarrow>
          (let (effs, err) = read_loop parse [] (chunks b) (ending b)
           in (GetReader # effs @ [ReleaseLock], err)))"

text \<open>The events a consumer that exhausts the generator receives.\<close>

fun yielded :: "'e effect list \<Rightarrow> 'e list" where
  "yielded [] = []"
| "yielded (Yield e # effs) = e # yielded effs"
| "yielded (_ # effs) = yielded effs"

definition sse_events :: "(string \<Rightarrow> 'e option) \<Rightarrow> string list \<Rightarrow> stream_end \<Rightarrow> 'e list" where
  "sse_events parse cs fin =
     yielded (fst (parseSSEStream parse (Some \<lparr>chunks = cs, ending = fin\<rparr>)))"

text \<open>
  The events of the final-buffer check: it runs when the stream closes, not when a read
  rejects.
\<close>

definition final_events :: "(string \<Rightarrow> 'e option) \<Rightarrow> string \<Rightarrow> stream_end \<Rightarrow> 'e list" where
  "final_events parse buffer fin =
     (case fin of Closed \<Rightarrow> yielded (handle_line parse buffer) | Failed msg \<Rightarrow> [])"

text \<open>
  A consumer of the generator either takes every event or leaves its \<^verbatim>\<open>for await\<close> loop
  early. \<open>StopsAfter n\<close> leaves in the loop body run for the \<open>n\<close>-th event: that calls the
  generator's \<^verbatim>\<open>return()\<close> while it is suspended at that \<^verbatim>\<open>yield\<close>, so nothing after the
  \<^verbatim>\<open>yield\<close> runs except the \<^verbatim>\<open>finally\<close> block. \<open>StopsAfter 0\<close> never asks for an event, and
  the body of the generator never starts.
\<close>

datatype consumer = Exhausts | StopsAfter nat

text \<open>The effects up to and including the \<open>n\<close>-th \<^verbatim>\<open>yield\<close>.\<close>

fun until_yield :: "nat \<Rightarrow> 'e effect list \<Rightarrow> 'e effect list" where
  "until_yield 0 effs = []"
| "until_yield (Suc n) [] = []"
| "until_yield (Suc n) (Yield e # effs) = Yield e # until_yield n effs"
| "until_yield (Suc n) (x # effs) = x # until_yield (Suc n) effs"

definition consume ::
  "consumer \<Rightarrow> (string \<Rightarrow> 'e option) \<Rightarrow> response_body option \<Rightarrow> 'e effect list \<times> string option"
where
  "consume c parse body =
     (case c of
        Exhausts \<Rightarrow> parseSSEStream parse body
      | StopsAfter 0 \<Rightarrow> ([], None)
      | StopsAfter (Suc n) \<Rightarrow>
          (case body of
             None \<Rightarrow> ([], Some ''No response body'')
           | Some b \<Rightarrow>
               (let (effs, err) = read_loop parse [] (chunks b) (ending b)
                in if length (yielded effs) < Suc n
                   then (GetReader # effs @ [ReleaseLock], err)
                   else (GetReader # until_yield (Suc n) effs @ [ReleaseLock], None))))"

text \<open>
  The bytes of a read become text through \<^verbatim>\<open>decoder.decode(value, { stream: true })\<close>. The
  \<^verbatim>\<open>TextDecoder\<close> belongs to the platform: it is a parameter, a function from its state and
  the bytes of one read to the text it hands out and its next state.
\<close>

type_synonym 'd text_decoder = "'d \<Rightarrow> string \<Rightarrow> string \<times> 'd"

fun decode_chunks :: "'d text_decoder \<Rightarrow> 'd \<Rightarrow> string list \<Rightarrow> string list" where
  "decode_chunks dec d [] = []"
| "decode_chunks dec d (v # vs) = (let (t, d') = dec d v in t # decode_chunks dec d' vs)"

text \<open>
  What \<^verbatim>\<open>stream: true\<close> promises: bytes held back at the end of one call are decoded with
  the next, so cutting the input in two changes neither the text nor the final state.
\<close>

definition streaming :: "'d text_decoder \<Rightarrow> bool" where
  "streaming dec =
     (\<forall>d a b. dec d [] = ([], d) \<and>
        dec d (a @ b) = (let (t1, d1) = dec d a; (t2, d2) = dec d1 b in (t1 @ t2, d2)))"

text \<open>
  For the statements about lines: the text of a stream made of the given lines (joined by
  newlines), the event a line stands for (\<^verbatim>\<open>JSON.parse\<close> of its trimmed payload, for a
  \<^verbatim>\<open>data: \<close> line), and a small parser for concrete runs, which accepts the payloads that
  start with a brace.
\<close>

fun join_lines :: "string list \<Rightarrow> string" where
  "join_lines [] = []"
| "join_lines [l] = l"
| "join_lines (l # ls) = l @ newline # join_lines ls"

definition line_event :: "(string \<Rightarrow> 'e option) \<Rightarrow> string \<Rightarrow> 'e option" where
  "line_event parse l = (if startsWith ''data: '' l then parse (trim (drop 6 l)) else None)"

definition toy_parse :: "string \<Rightarrow> string option" where
  "toy_parse s = (case s of [] \<Rightarrow> None | c # cs \<Rightarrow> if c = CHR ''{'' then Some s else None)"

section \<open>The step states of the test runner UI (processEvent)\<close>

text \<open>
  \<^verbatim>\<open>src/ui-src/test-runner.ts\<close>. An event is the object \<^verbatim>\<open>JSON.parse\<close> produced; an optional
  field that is absent (or \<^verbatim>\<open>null\<close>) is \<open>None\<close>. The fields carry the prefix \<open>ev_\<close>; the
  \<^verbatim>\<open>value\<close> of a StepState is \<open>value_\<close>.
\<close>

record SSEEvent =
  ev_type :: string
  ev_run_id :: "int option"
  ev_total_steps :: "int option"
  ev_step_number :: "int option"
  ev_action :: "string option"
  ev_target :: "string option"
  ev_value :: "string option"
  ev_status :: "string option"
  ev_duration :: "int option"
  ev_error :: "string option"
  ev_screenshot :: "string option"
  ev_retried :: "bool option"
  ev_summary :: "string option"

record StepState =
  number :: int
  action :: string
  target :: "string option"
  value_ :: "string option"
  status :: string
  duration :: int
  error :: "string option"
  screenshot :: "string option"
  retried :: "bool option"

text \<open>
  JavaScript's \<^verbatim>\<open>x || d\<close> on an optional string: the default is taken when \<^verbatim>\<open>x\<close> is absent
  and when it is the empty string. On an optional number the default \<^verbatim>\<open>0\<close> replaces an
  absent value (and \<^verbatim>\<open>0\<close> itself).
\<close>

definition or_else :: "string option \<Rightarrow> string \<Rightarrow> string" where
  "or_else x d = (case x of None \<Rightarrow> d | Some s \<Rightarrow> if s = [] then d else s)"

definition or_null :: "string option \<Rightarrow> string option" where
  "or_null x = (case x of None \<Rightarrow> None | Some s \<Rightarrow> if s = [] then None else Some s)"

definition or_zero :: "int option \<Rightarrow> int" where
  "or_zero x = (case x of None \<Rightarrow> 0 | Some n \<Rightarrow> n)"

text \<open>
  The summary panel \<^verbatim>\<open>showSummary\<close> fills in, and the state of the page: the
  \<^verbatim>\<open>steps\<close> map (a JavaScript \<^verbatim>\<open>Map\<close>: insertion order, one entry per key), the summary
  panel (hidden until \<^verbatim>\<open>showSummary\<close> runs) and the error banner. The elements of the page
  are taken to exist; the list \<^verbatim>\<open>updateStepsList\<close> renders is a function of the map and is
  not part of the state.
\<close>

record summary_panel =
  testFailed :: bool
  passedCount :: nat
  failedCount :: nat
  totalDuration :: int

record page =
  steps :: "(int \<times> StepState) list"
  summary :: "summary_panel option"
  error_banner :: "string option"

definition showSummary :: "page \<Rightarrow> page" where
  "showSummary pg =
     (let passed = length (filter (\<lambda>(k, step). status step = ''passed'') (steps pg));
          failed = length (filter (\<lambda>(k, step). status step \<noteq> ''passed'' \<and>
                     (status step = ''failed'' \<or> status step = ''skipped'')) (steps pg));
          dur = sum_list (map (\<lambda>(k, step). duration step) (steps pg))
      in pg\<lparr>summary := Some \<lparr>testFailed = (failed > 0), passedCount = passed,
                               failedCount = failed, totalDuration = dur\<rparr>\<rparr>)"

text \<open>
  \<^verbatim>\<open>processEvent\<close>: the \<^verbatim>\<open>switch\<close> on \<^verbatim>\<open>event.type\<close>. \<^verbatim>\<open>if (event.step_number)\<close> is false for
  an absent number and for \<^verbatim>\<open>0\<close>; \<^verbatim>\<open>steps.set\<close> is \<open>AList.update\<close>; \<^verbatim>\<open>steps.get\<close> is
  \<open>map_of\<close>, and the assignments to \<^verbatim>\<open>step.status\<close>, ... change the object the map holds.
\<close>

definition processEvent :: "SSEEvent \<Rightarrow> page \<Rightarrow> page" where
  "processEvent event pg =
     (if ev_type event = ''run_started'' then pg
      else if ev_type event = ''step_started'' then
        (case ev_step_number event of
           None \<Rightarrow> pg
         | Some n \<Rightarrow>
             if n = 0 then pg
             else pg\<lparr>steps := AList.update n
                    \<lparr>number = n,
                     action = or_else (ev_action event) ''unknown'',
                     target = or_null (ev_target event),
                     value_ = or_null (ev_value event),
                     status = ''running'',
                     duration = 0,
                     error = None, screenshot = None, retried = None\<rparr> (steps pg)\<rparr>)
      else if ev_type event = ''step_completed'' then
        (case ev_step_number event of
           None \<Rightarrow> pg
         | Some n \<Rightarrow>
             if n = 0 then pg
             else (case map_of (steps pg) n of
                     None \<Rightarrow> pg
                   | Some step \<Rightarrow>
                       pg\<lparr>steps := AList.update n
                          (step\<lparr>status := or_else (ev_status event) ''passed'',
                                duration := or_zero (ev_duration event),
                                error := ev_error event,
                                screenshot := ev_screenshot event,
                                retried := ev_retried event\<rparr>) (steps pg)\<rparr>))
      else if ev_type event = ''run_completed'' then showSummary pg
      else pg)"

text \<open>
  \<^verbatim>\<open>processToolResult\<close>: an error in the data is shown and nothing else happens; otherwise
  the steps are cleared and the events are processed in order. The test's name and
  description (plain text on the page) are left out.
\<close>

record TestRunnerData =
  data_events :: "SSEEvent list option"
  data_error :: "string option"

definition processToolResult :: "TestRunnerData \<Rightarrow> page \<Rightarrow> page" where
  "processToolResult data pg =
     (case or_null (data_error data) of
        Some msg \<Rightarrow> pg\<lparr>error_banner := Some (''Error: '' @ msg)\<rparr>
      | None \<Rightarrow>
          foldl (\<lambda>p e. processEvent e p) (pg\<lparr>steps := []\<rparr>)
            (case data_events data of None \<Rightarrow> [] | Some evs \<Rightarrow> evs))"

definition initial_page :: page where
  "initial_page = \<lparr>steps = [], summary = None, error_banner = None\<rparr>"

section \<open>The outcome the MCP tools report (run_test, run_natural_test)\<close>

text \<open>
  \<^verbatim>\<open>src/server.ts\<close>, the same three lines in both tool handlers:
  \<^verbatim>\<open>
  const completedEvent = events.find((e) => e.type === "run_completed");
  const status = completedEvent?.type === "run_completed" ? completedEvent.status : "unknown";
  const summary = completedEvent?.type === "run_completed" ? completedEvent.summary : "Test completed";
  \<close>
\<close>

definition completedEvent :: "SSEEvent list \<Rightarrow> SSEEvent option" where
  "completedEvent events = find (\<lambda>e. ev_type e = ''run_completed'') events"

definition run_status :: "SSEEvent list \<Rightarrow> string option" where
  "run_status events =
     (case completedEvent events of None \<Rightarrow> Some ''unknown'' | Some e \<Rightarrow> ev_status e)"

definition run_summary :: "SSEEvent list \<Rightarrow> string option" where
  "run_summary events =
     (case completedEvent events of None \<Rightarrow> Some ''Test completed'' | Some e \<Rightarrow> ev_summary e)"

section \<open>The SSE relay of the server (the /proxy handlers)\<close>

text \<open>
  \<^verbatim>\<open>src/server.ts\<close>, the two \<^verbatim>\<open>expressApp.post("/proxy/...")\<close> handlers. A request body is
  the value \<^verbatim>\<open>express.json()\<close> parsed; \<open>JUndefined\<close> is JavaScript's \<^verbatim>\<open>undefined\<close>, which a
  missing property reads as.
\<close>

datatype json =
    JUndefined
  | JNull
  | JBool bool
  | JNum rat
  | JStr string
  | JArr "json list"
  | JObj "(string \<times> json) list"

text \<open>Reading a property, as the destructuring \<^verbatim>\<open>const { browser } = req.body\<close> does.\<close>

definition field :: "string \<Rightarrow> json \<Rightarrow> json" where
  "field k v =
     (case v of
        JObj kvs \<Rightarrow> (case map_of kvs k of Some x \<Rightarrow> x | None \<Rightarrow> JUndefined)
      | _ \<Rightarrow> JUndefined)"

text \<open>What \<^verbatim>\<open>x || d\<close> tests.\<close>

fun truthy :: "json \<Rightarrow> bool" where
  "truthy JUndefined = False"
| "truthy JNull = False"
| "truthy (JBool b) = b"
| "truthy (JNum n) = (n \<noteq> 0)"
| "truthy (JStr s) = (s \<noteq> [])"
| "truthy (JArr xs) = True"
| "truthy (JObj kvs) = True"

text \<open>
  The object \<^verbatim>\<open>JSON.stringify({ k: v, ... })\<close> sends: a property whose value is
  \<^verbatim>\<open>undefined\<close> is left out.
\<close>

definition object_of :: "(string \<times> json) list \<Rightarrow> json" where
  "object_of kvs = JObj (filter (\<lambda>(k, v). v \<noteq> JUndefined) kvs)"

definition error_json :: "string \<Rightarrow> json" where
  "error_json msg = JObj [(''error'', JStr msg)]"

text \<open>
  The upstream URL (under \<^verbatim>\<open>CHECKMATE_URL\<close>): \<^verbatim>\<open>/api/test-cases/${testCaseId}/runs/stream\<close>
  with the value put into it, or \<^verbatim>\<open>/api/test-runs/execute/stream\<close>.
\<close>

datatype upstream_url = RunsStream json | ExecuteStream

text \<open>What a handler does to the upstream and to the downstream response, in order.\<close>

datatype relay_effect =
    Fetch upstream_url json      \<comment> \<open>\<^verbatim>\<open>await fetch(url, { method: "POST", ..., body })\<close>\<close>
  | ResJson nat json             \<comment> \<open>\<^verbatim>\<open>res.status(n).json(payload)\<close>\<close>
  | ResSetHeader string string   \<comment> \<open>\<^verbatim>\<open>res.setHeader(name, value)\<close>\<close>
  | ResFlushHeaders              \<comment> \<open>\<^verbatim>\<open>res.flushHeaders()\<close>\<close>
  | BodyGetReader                \<comment> \<open>\<^verbatim>\<open>response.body.getReader()\<close>\<close>
  | OnCloseCancel                \<comment> \<open>\<^verbatim>\<open>req.on("close", () => { reader.cancel(); })\<close>\<close>
  | ReaderRead                   \<comment> \<open>\<^verbatim>\<open>await reader.read()\<close>\<close>
  | ResWrite string              \<comment> \<open>\<^verbatim>\<open>res.write(value)\<close>\<close>
  | ResEnd                       \<comment> \<open>\<^verbatim>\<open>res.end()\<close>\<close>

text \<open>
  The upstream's answer: \<^verbatim>\<open>fetch\<close> rejects with an \<^verbatim>\<open>Error\<close> (its message), or resolves with
  a response. The body's chunks are the values the reads return (after a
  \<^verbatim>\<open>reader.cancel()\<close> a read returns \<^verbatim>\<open>done\<close>), and a read that rejects does so with an
  \<^verbatim>\<open>Error\<close>, so \<^verbatim>\<open>error instanceof Error ? error.message : "Proxy error"\<close> is the message.
\<close>

record upstream_response =
  up_status :: nat
  up_statusText :: string
  up_body :: "response_body option"

datatype fetch_result = Rejects string | Resolves upstream_response

text \<open>\<^verbatim>\<open>response.ok\<close>: a status from 200 to 299.\<close>

definition ok :: "upstream_response \<Rightarrow> bool" where
  "ok r = (200 \<le> up_status r \<and> up_status r \<le> 299)"

text \<open>
  \<^verbatim>\<open>
  const pump = async () => {
    while (true) {
      const { done, value } = await reader.read();
      if (done) break;
      res.write(value);
    }
    res.end();
  };
  \<close>
\<close>

fun pump :: "string list \<Rightarrow> stream_end \<Rightarrow> relay_effect list \<times> string option" where
  "pump [] Closed = ([ReaderRead, ResEnd], None)"
| "pump [] (Failed msg) = ([ReaderRead], Some msg)"
| "pump (v # vs) fin = (let (effs, err) = pump vs fin in (ReaderRead # ResWrite v # effs, err))"

text \<open>
  The \<^verbatim>\<open>try { ... } catch (error) { res.status(500).json(...) }\<close> block, the same text in
  both handlers: the fetch, the non-success answer, the headers, the pump, and the
  \<^verbatim>\<open>catch\<close> around all of it.
\<close>

definition relay :: "upstream_url \<Rightarrow> json \<Rightarrow> fetch_result \<Rightarrow> relay_effect list" where
  "relay url body upstream =
     Fetch url body #
     (case upstream of
        Rejects msg \<Rightarrow> [ResJson 500 (error_json msg)]
      | Resolves response \<Rightarrow>
          if \<not> ok response then
            [ResJson (up_status response)
               (error_json (''Checkmate API error: '' @ up_statusText response))]
          else
            [ResSetHeader ''Content-Type'' ''text/event-stream'',
             ResSetHeader ''Cache-Control'' ''no-cache'',
             ResSetHeader ''Connection'' ''keep-alive'',
             ResFlushHeaders] @
            (case up_body response of
               None \<Rightarrow> [ResEnd]
             | Some b \<Rightarrow>
                 BodyGetReader # OnCloseCancel #
                 (let (effs, err) = pump (chunks b) (ending b)
                  in effs @ (case err of
                               None \<Rightarrow> []
                             | Some msg \<Rightarrow> [ResJson 500 (error_json msg)]))))"

text \<open>
  \<^verbatim>\<open>POST /proxy/test-cases/:testCaseId/runs/stream\<close> and
  \<^verbatim>\<open>POST /proxy/test-runs/execute/stream\<close> of \<^verbatim>\<open>src/server.ts\<close>: the parameters are taken
  from the request as they are.
\<close>

definition proxy_test_case_run :: "string \<Rightarrow> json \<Rightarrow> fetch_result \<Rightarrow> relay_effect list" where
  "proxy_test_case_run testCaseId body upstream =
     (let browser = field ''browser'' body
      in relay (RunsStream (JStr testCaseId))
           (object_of [(''browser'', if truthy browser then browser else JStr ''chromium-headless'')])
           upstream)"

definition proxy_execute_steps :: "json \<Rightarrow> fetch_result \<Rightarrow> relay_effect list" where
  "proxy_execute_steps body upstream =
     relay ExecuteStream
       (object_of [(''project_id'', field ''project_id'' body), (''steps'', field ''steps'' body),
                   (''browser'', field ''browser'' body), (''fixture_ids'', field ''fixture_ids'' body)])
       upstream"

subsection \<open>The handlers of the server source that validates\<close>

text \<open>
  The repository holds a second text of the server (it follows the client in
  \<^verbatim>\<open>src/src/checkmate-client.ts\<close> and imports \<^verbatim>\<open>./src/logger.js\<close>). Its two proxy handlers
  check the request with zod schemas before the same \<^verbatim>\<open>try\<close> block:
  \<^verbatim>\<open>
  const browserSchema = z.enum(["chromium", "chromium-headless", "firefox",
    "firefox-headless", "webkit", "webkit-headless"]).optional();
  const testCaseRunSchema = z.object({ browser: browserSchema });
  const executeStepsSchema = z.object({
    project_id: z.number().int().positive(),
    steps: z.array(z.string()).min(1),
    browser: browserSchema,
    fixture_ids: z.array(z.number().int().positive()).optional(),
  });
  \<close>
  A schema is modelled by the list of the properties it rejects (zod's \<^verbatim>\<open>issues\<close>, reduced to
  their paths); the parse succeeds when the list is empty.
\<close>

definition browserSchema :: "json \<Rightarrow> bool" where
  "browserSchema v =
     (case v of
        JUndefined \<Rightarrow> True
      | JStr s \<Rightarrow> s \<in> set [''chromium'', ''chromium-headless'', ''firefox'',
                          ''firefox-headless'', ''webkit'', ''webkit-headless'']
      | _ \<Rightarrow> False)"

definition positive_int :: "json \<Rightarrow> bool" where
  "positive_int v = (case v of JNum n \<Rightarrow> of_int \<lfloor>n\<rfloor> = n \<and> 0 < n | _ \<Rightarrow> False)"

definition is_string :: "json \<Rightarrow> bool" where
  "is_string v = (case v of JStr s \<Rightarrow> True | _ \<Rightarrow> False)"

definition steps_schema :: "json \<Rightarrow> bool" where
  "steps_schema v = (case v of JArr xs \<Rightarrow> list_all is_string xs \<and> 1 \<le> length xs | _ \<Rightarrow> False)"

definition fixture_ids_schema :: "json \<Rightarrow> bool" where
  "fixture_ids_schema v =
     (case v of JUndefined \<Rightarrow> True | JArr xs \<Rightarrow> list_all positive_int xs | _ \<Rightarrow> False)"

definition testCaseRunSchema :: "json \<Rightarrow> string list" where
  "testCaseRunSchema body =
     (case body of
        JObj kvs \<Rightarrow> (if browserSchema (field ''browser'' body) then [] else [''browser''])
      | _ \<Rightarrow> [''body''])"

definition executeStepsSchema :: "json \<Rightarrow> string list" where
  "executeStepsSchema body =
     (case body of
        JObj kvs \<Rightarrow>
          (if positive_int (field ''project_id'' body) then [] else [''project_id'']) @
          (if steps_schema (field ''steps'' body) then [] else [''steps'']) @
          (if browserSchema (field ''browser'' body) then [] else [''browser'']) @
          (if fixture_ids_schema (field ''fixture_ids'' body) then [] else [''fixture_ids''])
      | _ \<Rightarrow> [''body''])"

definition invalid_body :: "string list \<Rightarrow> json" where
  "invalid_body issues =
     JObj [(''error'', JStr ''Invalid request body''), (''details'', JArr (map JStr issues))]"

text \<open>
  \<^verbatim>\<open>parseInt(req.params.testCaseId, 10)\<close>: leading white space, a sign, then the digits up
  to the first character that is not one; \<open>None\<close> is \<^verbatim>\<open>NaN\<close>. The value is the exact
  integer of the digits: \<^verbatim>\<open>parseInt\<close> returns the nearest double, which differs from it only
  beyond \<open>2 ^ 53\<close>, and the sign test \<^verbatim>\<open>testCaseId <= 0\<close> is the same for both.
\<close>

definition is_digit :: "char \<Rightarrow> bool" where
  "is_digit c = (48 \<le> (of_char c :: nat) \<and> (of_char c :: nat) \<le> 57)"

definition digits_value :: "string \<Rightarrow> int" where
  "digits_value ds = foldl (\<lambda>a c. 10 * a + (int (of_char c) - 48)) 0 ds"

definition parseInt10 :: "string \<Rightarrow> int option" where
  "parseInt10 s =
     (let t = dropWhile is_white_space s;
          negative = (case t of c # r \<Rightarrow> c = CHR ''-'' | [] \<Rightarrow> False);
          signed = (case t of c # r \<Rightarrow> c = CHR ''-'' \<or> c = CHR ''+'' | [] \<Rightarrow> False);
          ds = takeWhile is_digit (if signed then tl t else t)
      in if ds = [] then None
         else Some (if negative then - digits_value ds else digits_value ds))"

definition proxy_test_case_run_validated ::
  "string \<Rightarrow> json \<Rightarrow> fetch_result \<Rightarrow> relay_effect list"
where
  "proxy_test_case_run_validated param body upstream =
     (case parseInt10 param of
        None \<Rightarrow> [ResJson 400 (error_json ''Invalid testCaseId: must be a positive integer'')]
      | Some testCaseId \<Rightarrow>
          if testCaseId \<le> 0
          then [ResJson 400 (error_json ''Invalid testCaseId: must be a positive integer'')]
          else if testCaseRunSchema body \<noteq> []
          then [ResJson 400 (invalid_body (testCaseRunSchema body))]
          else
            (let browser = field ''browser'' body
             in relay (RunsStream (JNum (of_int testCaseId)))
                  (object_of [(''browser'',
                     if truthy browser then browser else JStr ''chromium-headless'')])
                  upstream))"

definition proxy_execute_steps_validated :: "json \<Rightarrow> fetch_result \<Rightarrow> relay_effect list" where
  "proxy_execute_steps_validated body upstream =
     (if executeStepsSchema body \<noteq> []
      then [ResJson 400 (invalid_body (executeStepsSchema body))]
      else relay ExecuteStream
             (object_of [(''project_id'', field ''project_id'' body), (''steps'', field ''steps'' body),
                         (''browser'', field ''browser'' body),
                         (''fixture_ids'', field ''fixture_ids'' body)])
             upstream)"

section \<open>The tool handlers (run_test, run_natural_test)\<close>

text \<open>
  \<^verbatim>\<open>executeTestCase\<close> and \<^verbatim>\<open>executeSteps\<close> of the client, consumed by the \<^verbatim>\<open>for await\<close> loop
  of a tool handler, which pushes every event onto \<^verbatim>\<open>events\<close>:
  \<^verbatim>\<open>
  const response = await fetch(...);
  if (!response.ok) {
    const errorText = await response.text();
    throw new Error(`Failed to execute test case: ${errorText}`);
  }
  yield* this.parseSSEStream(response);
  \<close>
  The result is the message of the error that reaches the handler's \<^verbatim>\<open>catch\<close>, or the
  events collected when the generator is exhausted. The body of the response is the text of
  its reads.
\<close>

definition response_text :: "upstream_response \<Rightarrow> string + string" where
  "response_text response =
     (case up_body response of
        None \<Rightarrow> Inr []
      | Some b \<Rightarrow>
          (case ending b of Closed \<Rightarrow> Inr (concat (chunks b)) | Failed msg \<Rightarrow> Inl msg))"

definition executeStream ::
  "string \<Rightarrow> (string \<Rightarrow> SSEEvent option) \<Rightarrow> fetch_result \<Rightarrow> string + SSEEvent list"
where
  "executeStream failed_to parse upstream =
     (case upstream of
        Rejects msg \<Rightarrow> Inl msg
      | Resolves response \<Rightarrow>
          if \<not> ok response then
            (case response_text response of
               Inl msg \<Rightarrow> Inl msg
             | Inr errorText \<Rightarrow> Inl (failed_to @ errorText))
          else
            (let (effs, err) = parseSSEStream parse (up_body response)
             in case err of Some msg \<Rightarrow> Inl msg | None \<Rightarrow> Inr (yielded effs)))"

text \<open>
  What a tool returns: the text for the model and the \<^verbatim>\<open>structuredContent\<close> for the test
  runner page (its \<^verbatim>\<open>events\<close>, \<^verbatim>\<open>status\<close>, \<^verbatim>\<open>summary\<close> and \<^verbatim>\<open>error\<close>; the test case's
  name and description are left out). A template prints an absent value as
  \<^verbatim>\<open>undefined\<close>.
\<close>

record tool_result =
  content_text :: string
  sc_events :: "SSEEvent list"
  sc_status :: "string option"
  sc_summary :: "string option"
  sc_error :: "string option"

definition template :: "string option \<Rightarrow> string" where
  "template x = (case x of None \<Rightarrow> ''undefined'' | Some s \<Rightarrow> s)"

text \<open>
  The \<^verbatim>\<open>catch\<close> of a handler:
  \<^verbatim>\<open>
  const message = error instanceof Error ? error.message : "Unknown error";
  return { content: [{ type: "text", text: `Error: ${message}` }],
           structuredContent: { error: message, events: [] } };
  \<close>
  and the end of its \<^verbatim>\<open>try\<close> block, after the loop.
\<close>

definition error_result :: "string \<Rightarrow> tool_result" where
  "error_result message =
     \<lparr>content_text = ''Error: '' @ message, sc_events = [], sc_status = None,
      sc_summary = None, sc_error = Some message\<rparr>"

definition completed_result :: "string \<Rightarrow> SSEEvent list \<Rightarrow> tool_result" where
  "completed_result title events =
     \<lparr>content_text = title @ [newline] @ ''Status: '' @ template (run_status events)
                        @ [newline] @ template (run_summary events),
      sc_events = events, sc_status = run_status events,
      sc_summary = run_summary events, sc_error = None\<rparr>"

text \<open>
  \<^verbatim>\<open>run_test\<close>: \<^verbatim>\<open>client.getTestCase\<close> gives the test case (here its name) or throws, then
  the stream is consumed. \<^verbatim>\<open>run_natural_test\<close>: \<^verbatim>\<open>client.buildTest\<close> gives the steps or
  throws, then the stream is consumed.
\<close>

definition run_test ::
  "string + string \<Rightarrow> (string \<Rightarrow> SSEEvent option) \<Rightarrow> fetch_result \<Rightarrow> tool_result"
where
  "run_test getTestCase parse upstream =
     (case getTestCase of
        Inl message \<Rightarrow> error_result message
      | Inr name \<Rightarrow>
          (case executeStream ''Failed to execute test case: '' parse upstream of
             Inl message \<Rightarrow> error_result message
           | Inr events \<Rightarrow> completed_result (''Test: '' @ name) events))"

definition run_natural_test ::
  "string \<Rightarrow> string option \<Rightarrow> (string \<Rightarrow> SSEEvent option) \<Rightarrow> fetch_result \<Rightarrow> tool_result"
where
  "run_natural_test query buildTest_error parse upstream =
     (case buildTest_error of
        Some message \<Rightarrow> error_result message
      | None \<Rightarrow>
          (case executeStream ''Failed to execute steps: '' parse upstream of
             Inl message \<Rightarrow> error_result message
           | Inr events \<Rightarrow> completed_result (''Test: \"'' @ query @ ''\"'') events))"

text \<open>
  The events the decoder yields from the upstream's answer (none when there is no stream),
  and the data the test runner page receives from a tool result
  (\<^verbatim>\<open>params.structuredContent as TestRunnerData\<close>).
\<close>

definition decoded_events :: "(string \<Rightarrow> SSEEvent option) \<Rightarrow> fetch_result \<Rightarrow> SSEEvent list" where
  "decoded_events parse upstream =
     (case upstream of
        Rejects msg \<Rightarrow> []
      | Resolves response \<Rightarrow>
          if ok response then yielded (fst (parseSSEStream parse (up_body response))) else [])"


text \<open>Events and requests for concrete runs.\<close>

definition started1 :: SSEEvent where
  "started1 = \<lparr>ev_type = ''step_started'', ev_run_id = None, ev_total_steps = None,
     ev_step_number = Some 1, ev_action = Some ''navigate'', ev_target = None,
     ev_value = Some ''https://example.com'', ev_status = None, ev_duration = None,
     ev_error = None, ev_screenshot = None, ev_retried = None, ev_summary = None\<rparr>"

definition completed1 :: SSEEvent where
  "completed1 = \<lparr>ev_type = ''step_completed'', ev_run_id = None, ev_total_steps = None,
     ev_step_number = Some 1, ev_action = Some ''navigate'', ev_target = None,
     ev_value = None, ev_status = Some ''passed'', ev_duration = Some 250,
     ev_error = None, ev_screenshot = None, ev_retried = None, ev_summary = None\<rparr>"







definition bad_request :: json where
  "bad_request = JObj [(''project_id'', JNum (- 1)), (''steps'', JArr []),
                       (''browser'', JStr ''netscape'')]"

section \<open>Properties of the decoder\<close>

lemma split_nl_nonempty: "split_nl s \<noteq> []"
  by (induction s) (auto split: list.splits)

text \<open>Splitting a text cut in two: the last piece of the first half continues in the second.\<close>

lemma split_nl_append:
  "split_nl (a @ b) = butlast (split_nl a) @ split_nl (last (split_nl a) @ b)"
proof (induction a)
  case Nil
  show ?case by simp
next
  case (Cons c a)
  show ?case
  proof (cases "c = newline")
    case True
    with Cons show ?thesis by (simp add: split_nl_nonempty)
  next
    case False
    obtain l ls where sp: "split_nl a = l # ls"
      using split_nl_nonempty [of a] by (cases "split_nl a") auto
    show ?thesis
    proof (cases ls)
      case Nil
      with sp False Cons show ?thesis by simp
    next
      case (Cons l' ls')
      with sp False Cons.IH show ?thesis by simp
    qed
  qed
qed

lemma last_split_nl_no_newline: "newline \<notin> set (last (split_nl s))"
  by (induction s) (auto simp: split_nl_nonempty split: list.splits)

lemma split_nl_no_newline: "newline \<notin> set s \<Longrightarrow> split_nl s = [s]"
  by (induction s) auto

lemma yielded_append: "yielded (a @ b) = yielded a @ yielded b"
  by (induction a rule: yielded.induct) auto

lemma yielded_concat: "yielded (concat xs) = concat (map yielded xs)"
  by (induction xs) (auto simp: yielded_append)

text \<open>
  The events of the loop started with a buffer that holds no newline: those of the complete
  lines of the buffer followed by all the chunks, then that of the last fragment when the
  stream closes (none when a read rejects).
\<close>

lemma read_loop_events:
  "newline \<notin> set buffer \<Longrightarrow>
   yielded (fst (read_loop parse buffer cs fin)) =
     concat (map (\<lambda>l. yielded (handle_line parse l)) (butlast (split_nl (buffer @ concat cs))))
     @ final_events parse (last (split_nl (buffer @ concat cs))) fin"
proof (induction cs arbitrary: buffer)
  case Nil
  then show ?case
    by (cases fin) (simp_all add: split_nl_no_newline final_events_def)
next
  case (Cons c cs)
  let ?lines = "split_nl (buffer @ c)"
  have nl: "newline \<notin> set (last ?lines)" by (rule last_split_nl_no_newline)
  have sp: "split_nl (buffer @ concat (c # cs)) = butlast ?lines @ split_nl (last ?lines @ concat cs)"
    using split_nl_append [of "buffer @ c" "concat cs"] by simp
  show ?case
    unfolding sp
    by (simp add: Let_def split_def yielded_append yielded_concat Cons.IH [OF nl]
        butlast_append last_append split_nl_nonempty comp_def)
qed

lemma sse_events_text:
  "sse_events parse cs fin =
     concat (map (\<lambda>l. yielded (handle_line parse l)) (butlast (split_nl (concat cs))))
     @ final_events parse (last (split_nl (concat cs))) fin"
  using read_loop_events [of "[]" parse cs fin]
  by (simp add: sse_events_def parseSSEStream_def split_def Let_def yielded_append)

lemma decode_chunks_concat:
  "streaming dec \<Longrightarrow> concat (decode_chunks dec d vs) = fst (dec d (concat vs))"
proof (induction vs arbitrary: d)
  case Nil
  then show ?case by (simp add: streaming_def)
next
  case (Cons v vs)
  from Cons.prems have "dec d (v @ concat vs) =
      (let (t1, d1) = dec d v; (t2, d2) = dec d1 (concat vs) in (t1 @ t2, d2))"
    unfolding streaming_def by blast
  with Cons.IH [OF Cons.prems] show ?case
    by (simp add: split_def Let_def)
qed

text \<open>
  C1. However the bytes of a stream are cut into reads, the decoder yields the events it
  yields when all the bytes arrive in one read: the events depend on the stream, not on the
  chunk boundaries, for a stream that closes and for one whose read fails. The decoder of
  the bytes is any streaming text decoder.
\<close>

theorem chunking_does_not_change_events:
  assumes "streaming dec"
  shows "sse_events parse (decode_chunks dec d vs) fin =
         sse_events parse (decode_chunks dec d [concat vs]) fin"
proof -
  have "concat (decode_chunks dec d vs) = concat (decode_chunks dec d [concat vs])"
    using decode_chunks_concat [OF assms] by (simp add: split_def)
  then show ?thesis by (simp only: sse_events_text)
qed

text \<open>
  The spec's example, with the identity as decoder and as parser: the line
  \<^verbatim>\<open>data: {"a":1}\<close> cut inside the JSON is one event, as it is uncut.
\<close>

theorem chunking_does_not_change_events_witness:
  "sse_events (\<lambda>s. Some s)
     (decode_chunks (\<lambda>(d::unit) v. (v, d)) () [''data: {\"a\":1'', ''}'' @ [newline]]) Closed
     = [''{\"a\":1}''] \<and>
   sse_events (\<lambda>s. Some s)
     (decode_chunks (\<lambda>(d::unit) v. (v, d)) () [''data: {\"a\":1}'' @ [newline]]) Closed
     = [''{\"a\":1}'']"
  using chunking_does_not_change_events
    [of "\<lambda>(d::unit) v. (v, d)" "\<lambda>s. Some s" "()" "[''data: {\"a\":1'', ''}'' @ [newline]]" Closed]
  by (simp add: streaming_def sse_events_def parseSSEStream_def handle_line_def startsWith_def
      trim_def is_white_space_def newline_def)

section \<open>Properties of the decoder: malformed payloads\<close>

lemma split_nl_line: "newline \<notin> set l \<Longrightarrow> split_nl (l @ newline # r) = l # split_nl r"
  by (induction l) (auto split: list.splits)

lemma split_nl_join_lines:
  "ls \<noteq> [] \<Longrightarrow> \<forall>l\<in>set ls. newline \<notin> set l \<Longrightarrow> split_nl (join_lines ls) = ls"
  by (induction ls rule: join_lines.induct) (auto simp: split_nl_line split_nl_no_newline)

lemma handle_line_empty: "handle_line parse [] = []"
  by (simp add: handle_line_def startsWith_def)

lemma yielded_handle_line:
  "parse [] = None \<Longrightarrow>
   yielded (handle_line parse l) = (case line_event parse l of None \<Rightarrow> [] | Some e \<Rightarrow> [e])"
  by (auto simp: handle_line_def line_event_def Let_def split: option.splits)

lemma concat_map_option:
  "concat (map (\<lambda>x. case f x of None \<Rightarrow> [] | Some e \<Rightarrow> [e]) xs) = List.map_filter f xs"
  by (induction xs) (auto split: option.splits)

text \<open>
  The events of a stream of lines, the last with or without its newline, cut into chunks
  in any way: the events of its lines, in order.
\<close>

lemma events_of_lines:
  assumes p: "parse [] = None" and ne: "ls \<noteq> []" and nl: "\<forall>l\<in>set ls. newline \<notin> set l"
    and text_eq: "concat cs = join_lines ls @ (if terminated then [newline] else [])"
  shows "sse_events parse cs Closed = List.map_filter (line_event parse) ls"
proof -
  let ?h = "\<lambda>l. yielded (handle_line parse l)"
  have sp: "split_nl (join_lines ls) = ls" using ne nl by (rule split_nl_join_lines)
  have lastnl: "newline \<notin> set (last ls)" using ne nl by simp
  have lines: "split_nl (concat cs) = (if terminated then ls @ [[]] else ls)"
  proof (cases terminated)
    case True
    have "split_nl (join_lines ls @ [newline]) = butlast ls @ split_nl (last ls @ [newline])"
      using split_nl_append [of "join_lines ls" "[newline]"] sp by simp
    also have "split_nl (last ls @ [newline]) = [last ls, []]"
      using split_nl_line [OF lastnl, of "[]"] by simp
    finally show ?thesis using True text_eq ne by simp
  next
    case False
    then show ?thesis using text_eq sp by simp
  qed
  have "concat (map ?h ls) = concat (map ?h (butlast ls)) @ ?h (last ls)"
  proof -
    have "ls = butlast ls @ [last ls]" using ne by simp
    then have "concat (map ?h ls) = concat (map ?h (butlast ls @ [last ls]))" by simp
    then show ?thesis by simp
  qed
  then have "sse_events parse cs Closed = concat (map ?h ls)"
    using ne by (cases terminated)
      (simp_all add: sse_events_text lines final_events_def handle_line_empty)
  then show ?thesis
    using p by (simp add: yielded_handle_line concat_map_option)
qed

lemma length_map_filter: "length (List.map_filter f xs) = length (filter (\<lambda>x. f x \<noteq> None) xs)"
  by (induction xs) (auto split: option.splits)

lemma count_split:
  "length (filter P xs) =
     length (filter (\<lambda>x. P x \<and> Q x) xs) + length (filter (\<lambda>x. P x \<and> \<not> Q x) xs)"
  by (induction xs) auto

lemma read_loop_closed_no_error: "snd (read_loop parse buffer cs Closed) = None"
  by (induction cs arbitrary: buffer) (auto simp: Let_def split_def)

text \<open>
  C6. Take a stream that closes, made of lines of which \<open>N\<close> start with \<^verbatim>\<open>data: \<close>, cut into
  chunks in any way, the last line with or without its newline. When exactly one of the
  data lines has a payload \<^verbatim>\<open>JSON.parse\<close> rejects, the decoder yields \<open>N - 1\<close> events: the
  parsed payloads of all the other data lines, in order, those before the malformed line
  and those after it. No error escapes the generator. (\<^verbatim>\<open>JSON.parse("")\<close> throws, which is
  the first hypothesis: an empty payload counts as one that fails to parse.)
\<close>

theorem one_malformed_payload_drops_one_event:
  assumes "parse [] = None" and "\<forall>l\<in>set ls. newline \<notin> set l"
    and "concat cs = join_lines ls @ (if terminated then [newline] else [])"
    and "length (filter (\<lambda>l. startsWith ''data: '' l \<and> parse (trim (drop 6 l)) = None) ls) = 1"
  shows "sse_events parse cs Closed = List.map_filter (line_event parse) ls \<and>
         length (sse_events parse cs Closed) = length (filter (startsWith ''data: '') ls) - 1 \<and>
         snd (parseSSEStream parse (Some \<lparr>chunks = cs, ending = Closed\<rparr>)) = None"
proof -
  have ne: "ls \<noteq> []" using assms(4) by auto
  have ev: "sse_events parse cs Closed = List.map_filter (line_event parse) ls"
    using assms(1) ne assms(2,3) by (rule events_of_lines)
  have "length (filter (startsWith ''data: '') ls) =
        length (filter (\<lambda>l. startsWith ''data: '' l \<and> parse (trim (drop 6 l)) \<noteq> None) ls) + 1"
    using count_split [of "startsWith ''data: ''" ls "\<lambda>l. parse (trim (drop 6 l)) \<noteq> None"] assms(4)
    by simp
  moreover have "(\<lambda>l. line_event parse l \<noteq> None) =
      (\<lambda>l. startsWith ''data: '' l \<and> parse (trim (drop 6 l)) \<noteq> None)"
    by (auto simp: line_event_def)
  ultimately have "length (sse_events parse cs Closed) = length (filter (startsWith ''data: '') ls) - 1"
    by (simp add: ev length_map_filter)
  moreover have "snd (parseSSEStream parse (Some \<lparr>chunks = cs, ending = Closed\<rparr>)) = None"
    by (simp add: parseSSEStream_def split_def Let_def read_loop_closed_no_error)
  ultimately show ?thesis using ev by simp
qed

text \<open>
  Three data lines and a blank one, the second data line malformed, cut in the middle of
  that line: the two well-formed payloads are yielded.
\<close>

theorem one_malformed_payload_drops_one_event_witness:
  "sse_events toy_parse
     [''data: {a}'' @ [newline] @ ''data: oo'',
      ''ps'' @ [newline, newline] @ ''data: {b}'' @ [newline]] Closed
     = [''{a}'', ''{b}''] \<and>
   length (filter (startsWith ''data: '') [''data: {a}'', ''data: oops'', [], ''data: {b}'']) = 3"
  using one_malformed_payload_drops_one_event
    [of toy_parse "[''data: {a}'', ''data: oops'', [], ''data: {b}'']"
      "[''data: {a}'' @ [newline] @ ''data: oo'',
        ''ps'' @ [newline, newline] @ ''data: {b}'' @ [newline]]" True]
  by (simp add: toy_parse_def line_event_def startsWith_def trim_def is_white_space_def
      newline_def)

section \<open>Properties of the generator's use of the transport\<close>

lemma handle_line_transport:
  "ReleaseLock \<notin> set (handle_line parse l) \<and> CancelReader \<notin> set (handle_line parse l) \<and>
   GetReader \<notin> set (handle_line parse l)"
  by (auto simp: handle_line_def Let_def split: option.splits)

lemma read_loop_transport:
  "ReleaseLock \<notin> set (fst (read_loop parse buffer cs fin)) \<and>
   CancelReader \<notin> set (fst (read_loop parse buffer cs fin)) \<and>
   GetReader \<notin> set (fst (read_loop parse buffer cs fin))"
proof (induction cs arbitrary: buffer)
  case Nil
  show ?case by (cases fin) (simp_all add: handle_line_transport)
next
  case (Cons c cs)
  then show ?case
    by (auto simp: Let_def split_def handle_line_transport)
qed

lemma set_until_yield: "set (until_yield n effs) \<subseteq> set effs"
  by (induction n effs rule: until_yield.induct) auto

text \<open>
  Whatever the consumer does once it has started the generator, the effects are
  \<^verbatim>\<open>getReader()\<close>, effects of the loop, \<^verbatim>\<open>releaseLock()\<close>.
\<close>

lemma consume_shape:
  assumes "c \<noteq> StopsAfter 0"
  shows "\<exists>effs. fst (consume c parse (Some b)) = GetReader # effs @ [ReleaseLock] \<and>
           set effs \<subseteq> set (fst (read_loop parse [] (chunks b) (ending b)))"
proof (cases c)
  case Exhausts
  then show ?thesis
    by (simp add: consume_def parseSSEStream_def split_def Let_def)
next
  case (StopsAfter n)
  with assms obtain m where n: "n = Suc m" by (cases n) auto
  let ?effs = "fst (read_loop parse [] (chunks b) (ending b))"
  show ?thesis
  proof (cases "length (yielded ?effs) < Suc m")
    case True
    with StopsAfter n show ?thesis
      by (simp add: consume_def split_def Let_def)
  next
    case False
    with StopsAfter n show ?thesis
      using set_until_yield [of "Suc m" ?effs]
      by (simp add: consume_def split_def Let_def)
  qed
qed

text \<open>
  The effects up to the \<open>n+1\<close>-th \<^verbatim>\<open>yield\<close> are a prefix of the effects: what comes after
  that \<^verbatim>\<open>yield\<close> is cut off.
\<close>

lemma until_yield_split:
  "Suc n \<le> length (yielded effs) \<Longrightarrow>
   \<exists>pre e rest. effs = pre @ Yield e # rest \<and> until_yield (Suc n) effs = pre @ [Yield e] \<and>
     length (yielded pre) = n"
proof (induction effs arbitrary: n)
  case Nil
  then show ?case by simp
next
  case (Cons x effs)
  show ?case
  proof (cases "\<exists>e. x = Yield e")
    case True
    then obtain e where x: "x = Yield e" by blast
    show ?thesis
    proof (cases n)
      case 0
      with x show ?thesis by (intro exI [of _ "[]"] exI [of _ e] exI [of _ effs]) simp
    next
      case (Suc m)
      with Cons.prems x have "Suc m \<le> length (yielded effs)" by simp
      from Cons.IH [OF this] obtain pre e' rest where
        "effs = pre @ Yield e' # rest" "until_yield (Suc m) effs = pre @ [Yield e']"
        "length (yielded pre) = m" by blast
      with x Suc show ?thesis
        by (intro exI [of _ "Yield e # pre"] exI [of _ e'] exI [of _ rest]) simp
    qed
  next
    case False
    then have y: "yielded (x # effs) = yielded effs" by (cases x) auto
    have u: "until_yield (Suc n) (x # effs) = x # until_yield (Suc n) effs"
      using False by (cases x) auto
    from Cons.prems y have "Suc n \<le> length (yielded effs)" by simp
    from Cons.IH [OF this] obtain pre e' rest where
      "effs = pre @ Yield e' # rest" "until_yield (Suc n) effs = pre @ [Yield e']"
      "length (yielded pre) = n" by blast
    with u y False show ?thesis
      by (intro exI [of _ "x # pre"] exI [of _ e'] exI [of _ rest]) (cases x, auto)
  qed
qed

text \<open>
  A consumer that stops at the \<open>n+1\<close>-th event of a stream that has one: the generator does
  what the exhausted generator does up to that \<^verbatim>\<open>yield\<close>, then releases the lock.
\<close>

lemma consume_stops_at_yield:
  assumes "Suc n \<le> length (yielded (fst (parseSSEStream parse (Some b))))"
  shows "\<exists>pre e rest.
           fst (parseSSEStream parse (Some b)) = GetReader # pre @ Yield e # rest @ [ReleaseLock] \<and>
           fst (consume (StopsAfter (Suc n)) parse (Some b)) = GetReader # pre @ [Yield e, ReleaseLock] \<and>
           length (yielded pre) = n"
proof -
  let ?effs = "fst (read_loop parse [] (chunks b) (ending b))"
  have full: "fst (parseSSEStream parse (Some b)) = GetReader # ?effs @ [ReleaseLock]"
    by (simp add: parseSSEStream_def split_def Let_def)
  with assms have len: "Suc n \<le> length (yielded ?effs)"
    by (simp add: yielded_append)
  then have cut: "fst (consume (StopsAfter (Suc n)) parse (Some b)) =
      GetReader # until_yield (Suc n) ?effs @ [ReleaseLock]"
    by (simp add: consume_def split_def Let_def)
  from until_yield_split [OF len] obtain pre e rest where
    "?effs = pre @ Yield e # rest" "until_yield (Suc n) ?effs = pre @ [Yield e]"
    "length (yielded pre) = n" by blast
  with full cut show ?thesis by simp
qed

text \<open>
  C5, as the code has it. Take a consumption of the event sequence that starts the
  generator. On a response with a body, whether the consumer takes every event, stops early
  or a read fails, the reader is acquired once and released once, and the release is the
  last thing done. On a response without a body nothing is acquired or released: the
  generator throws \<^verbatim>\<open>No response body\<close>. The client never cancels the reader. A consumer that
  stops at an event makes the generator do what it would have done up to that \<^verbatim>\<open>yield\<close> and
  then only release the lock: no further read (the rest of the stream is not drained) and
  no cancellation.
\<close>

theorem reader_released_once_never_cancelled:
  assumes "c \<noteq> StopsAfter 0"
  shows "length (filter (\<lambda>x. x = ReleaseLock) (fst (consume c parse (Some b)))) = 1 \<and>
         last (fst (consume c parse (Some b))) = ReleaseLock \<and>
         length (filter (\<lambda>x. x = GetReader) (fst (consume c parse (Some b)))) = 1 \<and>
         CancelReader \<notin> set (fst (consume c parse (Some b))) \<and>
         consume c parse None = ([], Some ''No response body'') \<and>
         (\<forall>n. c = StopsAfter (Suc n) \<longrightarrow>
              Suc n \<le> length (yielded (fst (parseSSEStream parse (Some b)))) \<longrightarrow>
              (\<exists>pre e rest.
                 fst (parseSSEStream parse (Some b)) =
                   GetReader # pre @ Yield e # rest @ [ReleaseLock] \<and>
                 fst (consume c parse (Some b)) = GetReader # pre @ [Yield e, ReleaseLock] \<and>
                 length (yielded pre) = n))"
proof -
  let ?effs = "fst (read_loop parse [] (chunks b) (ending b))"
  have t: "ReleaseLock \<notin> set ?effs" "CancelReader \<notin> set ?effs" "GetReader \<notin> set ?effs"
    using read_loop_transport [of parse "[]" "chunks b" "ending b"] by simp_all
  obtain effs where e: "fst (consume c parse (Some b)) = GetReader # effs @ [ReleaseLock]"
    and sub: "set effs \<subseteq> set ?effs"
    using consume_shape [OF assms] by blast
  from sub t have t': "ReleaseLock \<notin> set effs" "CancelReader \<notin> set effs" "GetReader \<notin> set effs"
    by auto
  have body: "length (filter (\<lambda>x. x = ReleaseLock) (fst (consume c parse (Some b)))) = 1 \<and>
         last (fst (consume c parse (Some b))) = ReleaseLock \<and>
         length (filter (\<lambda>x. x = GetReader) (fst (consume c parse (Some b)))) = 1 \<and>
         CancelReader \<notin> set (fst (consume c parse (Some b)))"
    using t' by (auto simp: e filter_empty_conv)
  have nobody: "consume c parse None = ([], Some ''No response body'')"
  proof (cases c)
    case Exhausts
    then show ?thesis by (simp add: consume_def parseSSEStream_def)
  next
    case (StopsAfter n)
    with assms obtain m where "n = Suc m" by (cases n) auto
    with StopsAfter show ?thesis by (simp add: consume_def)
  qed
  have cut: "\<forall>n. c = StopsAfter (Suc n) \<longrightarrow>
              Suc n \<le> length (yielded (fst (parseSSEStream parse (Some b)))) \<longrightarrow>
              (\<exists>pre e rest.
                 fst (parseSSEStream parse (Some b)) =
                   GetReader # pre @ Yield e # rest @ [ReleaseLock] \<and>
                 fst (consume c parse (Some b)) = GetReader # pre @ [Yield e, ReleaseLock] \<and>
                 length (yielded pre) = n)"
    using consume_stops_at_yield by blast
  from body nobody cut show ?thesis by blast
qed

text \<open>
  A consumer that stops after two events of a stream whose second read fails, and one that
  starts the generator on a response without a body. The payloads are JSON texts, which
  \<open>toy_parse\<close> accepts as \<^verbatim>\<open>JSON.parse\<close> does.
\<close>

theorem reader_released_once_never_cancelled_witness:
  "length (filter (\<lambda>x. x = ReleaseLock)
     (fst (consume (StopsAfter 2) toy_parse
        (Some \<lparr>chunks = [''data: {\"a\":1}'' @ [newline] @ ''data: {\"a\":2}'' @ [newline]],
               ending = Failed ''terminated''\<rparr>)))) = 1 \<and>
   fst (consume (StopsAfter 2) toy_parse
        (Some \<lparr>chunks = [''data: {\"a\":1}'' @ [newline] @ ''data: {\"a\":2}'' @ [newline]],
               ending = Failed ''terminated''\<rparr>))
     = [GetReader, ReadChunk, Yield ''{\"a\":1}'', Yield ''{\"a\":2}'', ReleaseLock] \<and>
   consume (StopsAfter 2) toy_parse None = ([], Some ''No response body'')"
  using reader_released_once_never_cancelled
    [of "StopsAfter 2" toy_parse
      "\<lparr>chunks = [''data: {\"a\":1}'' @ [newline] @ ''data: {\"a\":2}'' @ [newline]],
        ending = Failed ''terminated''\<rparr>"]
  by (simp add: consume_def handle_line_def toy_parse_def startsWith_def trim_def
      is_white_space_def newline_def)

text \<open>
  C5 as the spec states it fails. The stream carries three events, each a JSON text, in
  two chunks; the consumer stops after the first event. The generator has read one chunk:
  it releases the lock and sends no cancellation. The exhausted generator would have read
  three times; the rest of the stream is neither read nor torn down by the client.
\<close>

theorem early_abandonment_sends_no_cancel:
  "fst (consume (StopsAfter 1) toy_parse
         (Some \<lparr>chunks = [''data: {\"a\":1}'' @ [newline] @ ''data: {\"a\":2}'' @ [newline],
                          ''data: {\"a\":3}'' @ [newline]],
                ending = Closed\<rparr>))
     = [GetReader, ReadChunk, Yield ''{\"a\":1}'', ReleaseLock] \<and>
   CancelReader \<notin> set (fst (consume (StopsAfter 1) toy_parse
         (Some \<lparr>chunks = [''data: {\"a\":1}'' @ [newline] @ ''data: {\"a\":2}'' @ [newline],
                          ''data: {\"a\":3}'' @ [newline]],
                ending = Closed\<rparr>))) \<and>
   fst (consume Exhausts toy_parse
         (Some \<lparr>chunks = [''data: {\"a\":1}'' @ [newline] @ ''data: {\"a\":2}'' @ [newline],
                          ''data: {\"a\":3}'' @ [newline]],
                ending = Closed\<rparr>))
     = [GetReader, ReadChunk, Yield ''{\"a\":1}'', Yield ''{\"a\":2}'', ReadChunk,
        Yield ''{\"a\":3}'', ReadChunk, ReleaseLock]"
  by (simp add: consume_def parseSSEStream_def handle_line_def toy_parse_def
      startsWith_def trim_def is_white_space_def newline_def)

section \<open>Properties of the step states\<close>

text \<open>
  C10. A \<^verbatim>\<open>step_started\<close> or \<^verbatim>\<open>step_completed\<close> event whose step number is absent or \<open>0\<close>
  changes nothing: \<^verbatim>\<open>if (event.step_number)\<close> is false for both, so the steps (and the rest
  of the page) stay as they were, and the events of a step numbered \<open>0\<close> are ignored.
\<close>

theorem step_number_zero_or_absent_is_ignored:
  assumes "ev_type e = ''step_started'' \<or> ev_type e = ''step_completed''"
    and "ev_step_number e = None \<or> ev_step_number e = Some 0"
  shows "processEvent e pg = pg"
  using assms by (auto simp: processEvent_def)

theorem step_number_zero_or_absent_is_ignored_witness:
  "processEvent (started1\<lparr>ev_step_number := Some 0\<rparr>) initial_page = initial_page \<and>
   processEvent (completed1\<lparr>ev_step_number := None\<rparr>)
     (processEvent started1 initial_page) = processEvent started1 initial_page"
  using step_number_zero_or_absent_is_ignored
      [of "started1\<lparr>ev_step_number := Some 0\<rparr>" initial_page]
    step_number_zero_or_absent_is_ignored
      [of "completed1\<lparr>ev_step_number := None\<rparr>" "processEvent started1 initial_page"]
  by (simp add: started1_def completed1_def)

text \<open>
  C2, as the code has it. A \<^verbatim>\<open>step_completed\<close> event for a step number \<open>n\<close> that has no
  StepState changes nothing: no StepState is created and the event is dropped. When a
  StepState for \<open>n\<close> exists (and \<open>n\<close> is not \<open>0\<close>), its status, duration, error, screenshot
  and retried fields are set from the event.
\<close>

theorem step_completed_without_state_is_dropped:
  assumes "ev_type e = ''step_completed''" and "ev_step_number e = Some n"
  shows "(map_of (steps pg) n = None \<longrightarrow> processEvent e pg = pg) \<and>
         (n \<noteq> 0 \<longrightarrow> map_of (steps pg) n = Some step \<longrightarrow>
            map_of (steps (processEvent e pg)) n =
              Some (step\<lparr>status := or_else (ev_status e) ''passed'',
                         duration := or_zero (ev_duration e),
                         error := ev_error e, screenshot := ev_screenshot e,
                         retried := ev_retried e\<rparr>))"
  using assms by (auto simp: processEvent_def update_conv')

theorem step_completed_without_state_is_dropped_witness:
  "processEvent completed1 initial_page = initial_page \<and>
   map (\<lambda>(n, step). (n, status step, duration step))
     (steps (processEvent completed1 (processEvent started1 initial_page)))
     = [(1, ''passed'', 250)]"
proof -
  have a: "ev_type completed1 = ''step_completed''" and b: "ev_step_number completed1 = Some 1"
    by (simp_all add: completed1_def)
  have c: "map_of (steps initial_page) 1 = None"
    by (simp add: initial_page_def)
  from step_completed_without_state_is_dropped [OF a b, of initial_page] c
  have "processEvent completed1 initial_page = initial_page" by simp
  moreover have "map (\<lambda>(n, step). (n, status step, duration step))
     (steps (processEvent completed1 (processEvent started1 initial_page)))
     = [(1, ''passed'', 250)]"
    by (simp add: processEvent_def completed1_def started1_def initial_page_def
        or_null_def or_else_def or_zero_def)
  ultimately show ?thesis by simp
qed

text \<open>
  C2 as the spec states it fails: after the fold of a \<^verbatim>\<open>step_completed\<close> for step 1 with
  no \<^verbatim>\<open>step_started\<close> before it, there is no StepState for step 1.
\<close>

theorem step_completed_alone_creates_nothing:
  "steps (processToolResult \<lparr>data_events = Some [completed1], data_error = None\<rparr> initial_page) = [] \<and>
   map_of (steps (processToolResult \<lparr>data_events = Some [completed1], data_error = None\<rparr>
                    initial_page)) 1 = None"
  by (simp add: processToolResult_def processEvent_def completed1_def initial_page_def or_null_def)

text \<open>
  C7, as the code has it. A \<^verbatim>\<open>step_started\<close> event for a step number \<open>n\<close> other than \<open>0\<close>
  sets the StepState for \<open>n\<close> to a new one made from the event alone: its action, target
  and value, status \<^verbatim>\<open>running\<close>, duration \<open>0\<close>, no error, screenshot or retried flag. What
  the map held for \<open>n\<close> before, its status included, is gone; the other steps are untouched.
\<close>

theorem step_started_replaces_state:
  assumes "ev_type e = ''step_started''" and "ev_step_number e = Some n" and "n \<noteq> 0"
  shows "map_of (steps (processEvent e pg)) n =
           Some \<lparr>number = n, action = or_else (ev_action e) ''unknown'',
                 target = or_null (ev_target e), value_ = or_null (ev_value e),
                 status = ''running'', duration = 0,
                 error = None, screenshot = None, retried = None\<rparr> \<and>
         (\<forall>m. m \<noteq> n \<longrightarrow> map_of (steps (processEvent e pg)) m = map_of (steps pg) m)"
  using assms by (simp add: processEvent_def update_conv')

theorem step_started_replaces_state_witness:
  "map_of (steps (processEvent started1 (processEvent completed1 (processEvent started1 initial_page)))) 1 =
     Some \<lparr>number = 1, action = ''navigate'', target = None,
           value_ = Some ''https://example.com'', status = ''running'', duration = 0,
           error = None, screenshot = None, retried = None\<rparr>"
proof -
  have a: "ev_type started1 = ''step_started''" and b: "ev_step_number started1 = Some 1"
    by (simp_all add: started1_def)
  from step_started_replaces_state [OF a b, of "processEvent completed1 (processEvent started1 initial_page)"]
  show ?thesis by (simp add: started1_def or_else_def or_null_def)
qed

text \<open>
  C7 as the spec states it fails: step 1 is started and completes with status
  \<^verbatim>\<open>passed\<close>; a second \<^verbatim>\<open>step_started\<close> for step 1 puts it back to \<^verbatim>\<open>running\<close> with
  duration \<open>0\<close>.
\<close>

theorem duplicate_step_started_resets_status:
  "map (\<lambda>(n, step). (n, status step, duration step))
     (steps (processToolResult
        \<lparr>data_events = Some [started1, completed1], data_error = None\<rparr> initial_page))
     = [(1, ''passed'', 250)] \<and>
   map (\<lambda>(n, step). (n, status step, duration step))
     (steps (processToolResult
        \<lparr>data_events = Some [started1, completed1, started1], data_error = None\<rparr> initial_page))
     = [(1, ''running'', 0)]"
  by (simp add: processToolResult_def processEvent_def completed1_def started1_def initial_page_def
      or_null_def or_else_def or_zero_def)

section \<open>Properties of the reported outcome\<close>





text \<open>
  A read that fails in the middle of the stream reaches the \<^verbatim>\<open>catch\<close> of the handler: the
  events collected so far are dropped and the result is an error.
\<close>

lemma read_failure_is_error_result:
  assumes "ok response" and "up_body response = Some b" and "ending b = Failed msg"
  shows "run_test (Inr name) parse (Resolves response) = error_result msg"
    and "run_natural_test query None parse (Resolves response) = error_result msg"
proof -
  have "snd (read_loop parse buffer cs (Failed msg)) = Some msg" for buffer cs
    by (induction cs arbitrary: buffer) (auto simp: Let_def split_def)
  then have "executeStream failed_to parse (Resolves response) = Inl msg" for failed_to
    using assms by (simp add: executeStream_def parseSSEStream_def split_def Let_def)
  then show "run_test (Inr name) parse (Resolves response) = error_result msg"
    and "run_natural_test query None parse (Resolves response) = error_result msg"
    by (simp_all add: run_test_def run_natural_test_def)
qed

lemma stream_closed_is_completed_result:
  assumes "ok response" and "up_body response = Some b" and "ending b = Closed"
  shows "sc_events (run_test (Inr name) parse (Resolves response)) =
           decoded_events parse (Resolves response)"
    and "sc_status (run_test (Inr name) parse (Resolves response)) =
           run_status (decoded_events parse (Resolves response))"
proof -
  have "executeStream failed_to parse (Resolves response) =
          Inr (decoded_events parse (Resolves response))" for failed_to
    using assms
    by (simp add: executeStream_def decoded_events_def parseSSEStream_def split_def Let_def
        read_loop_closed_no_error)
  then show "sc_events (run_test (Inr name) parse (Resolves response)) =
           decoded_events parse (Resolves response)"
    and "sc_status (run_test (Inr name) parse (Resolves response)) =
           run_status (decoded_events parse (Resolves response))"
    by (simp_all add: run_test_def completed_result_def)
qed







section \<open>Properties of the relay\<close>

lemma relay_non_success:
  "\<not> ok response \<Longrightarrow>
   relay url body (Resolves response) =
     [Fetch url body,
      ResJson (up_status response) (error_json (''Checkmate API error: '' @ up_statusText response))]"
  by (simp add: relay_def)

text \<open>
  C8. When the upstream answers with a status outside 200 to 299, each proxy handler
  answers with one JSON error response after its fetch and does nothing else: the
  response carries the upstream's status and, as error, the upstream's status text. No
  header of an event stream is set and nothing is written to the downstream connection.
\<close>

theorem non_success_upstream_is_one_json_error:
  assumes "\<not> ok response"
  shows "(\<exists>url b. proxy_test_case_run testCaseId body (Resolves response) =
            [Fetch url b,
             ResJson (up_status response)
               (error_json (''Checkmate API error: '' @ up_statusText response))]) \<and>
         (\<exists>url b. proxy_execute_steps body (Resolves response) =
            [Fetch url b,
             ResJson (up_status response)
               (error_json (''Checkmate API error: '' @ up_statusText response))]) \<and>
         (\<forall>v. ResWrite v \<notin> set (proxy_test_case_run testCaseId body (Resolves response))) \<and>
         (\<forall>v. ResWrite v \<notin> set (proxy_execute_steps body (Resolves response)))"
  using assms
  by (simp add: proxy_test_case_run_def proxy_execute_steps_def relay_non_success Let_def)

theorem non_success_upstream_is_one_json_error_witness:
  "proxy_test_case_run ''7'' (JObj [])
     (Resolves \<lparr>up_status = 404, up_statusText = ''Not Found'',
                up_body = Some \<lparr>chunks = [''data: {}''], ending = Closed\<rparr>\<rparr>) =
     [Fetch (RunsStream (JStr ''7'')) (JObj [(''browser'', JStr ''chromium-headless'')]),
      ResJson 404 (JObj [(''error'', JStr ''Checkmate API error: Not Found'')])]"
  using non_success_upstream_is_one_json_error
    [of "\<lparr>up_status = 404, up_statusText = ''Not Found'',
          up_body = Some \<lparr>chunks = [''data: {}''], ending = Closed\<rparr>\<rparr>" "''7''" "JObj []"]
  by (simp add: ok_def proxy_test_case_run_def relay_def field_def object_of_def error_json_def)

text \<open>
  C3 at a failing input. The upstream answers 200 and its body gives one chunk, then a
  read rejects (the connection drops). The handler has set the event-stream headers and
  written the chunk; the rejection reaches the \<^verbatim>\<open>catch\<close>, which attempts
  \<^verbatim>\<open>res.status(500).json(...)\<close> on the response it has been streaming on, and
  \<^verbatim>\<open>res.end()\<close> is never called.
\<close>

theorem read_failure_after_write_attempts_json_error:
  "proxy_test_case_run ''7'' (JObj [])
     (Resolves \<lparr>up_status = 200, up_statusText = ''OK'',
                up_body = Some \<lparr>chunks = [''data: {}''], ending = Failed ''terminated''\<rparr>\<rparr>) =
     [Fetch (RunsStream (JStr ''7'')) (JObj [(''browser'', JStr ''chromium-headless'')]),
      ResSetHeader ''Content-Type'' ''text/event-stream'',
      ResSetHeader ''Cache-Control'' ''no-cache'',
      ResSetHeader ''Connection'' ''keep-alive'',
      ResFlushHeaders, BodyGetReader, OnCloseCancel,
      ReaderRead, ResWrite ''data: {}'', ReaderRead,
      ResJson 500 (JObj [(''error'', JStr ''terminated'')])]"
  by (simp add: ok_def proxy_test_case_run_def relay_def field_def object_of_def error_json_def)

text \<open>When the stream closes, the pump ends the response and no JSON response follows.\<close>

lemma pump_closed: "snd (pump vs Closed) = None \<and> (\<forall>n j. ResJson n j \<notin> set (fst (pump vs Closed)))"
  by (induction vs) (auto simp: split_def Let_def)

text \<open>
  C4 at a failing input. The handlers of \<^verbatim>\<open>src/server.ts\<close> take the request body as it is:
  a body with a project id of \<open>-1\<close>, no steps and an unknown browser name is sent upstream,
  whatever the upstream then answers.
\<close>

theorem unvalidated_request_reaches_upstream:
  "(\<exists>rest. proxy_execute_steps bad_request upstream =
            Fetch ExecuteStream bad_request # rest) \<and>
   (\<exists>rest. proxy_test_case_run ''abc'' (JObj [(''browser'', JStr ''netscape'')]) upstream =
            Fetch (RunsStream (JStr ''abc'')) (JObj [(''browser'', JStr ''netscape'')]) # rest)"
  by (simp add: proxy_execute_steps_def proxy_test_case_run_def relay_def bad_request_def
      field_def object_of_def)

text \<open>
  The handlers of the server source that validates do what C4 says: a body its schema
  rejects (and a test case id that is not a positive number) gets a 400 response with
  the validation details, and no fetch.
\<close>

lemma validated_handlers_reject_before_fetch:
  "executeStepsSchema body \<noteq> [] \<Longrightarrow>
     proxy_execute_steps_validated body upstream = [ResJson 400 (invalid_body (executeStepsSchema body))]"
  "testCaseRunSchema body \<noteq> [] \<Longrightarrow> parseInt10 param = Some n \<Longrightarrow> 0 < n \<Longrightarrow>
     proxy_test_case_run_validated param body upstream =
       [ResJson 400 (invalid_body (testCaseRunSchema body))]"
  "parseInt10 param = None \<or> (\<exists>n. parseInt10 param = Some n \<and> n \<le> 0) \<Longrightarrow>
     proxy_test_case_run_validated param body upstream =
       [ResJson 400 (error_json ''Invalid testCaseId: must be a positive integer'')]"
  by (auto simp: proxy_execute_steps_validated_def proxy_test_case_run_validated_def)

lemma validated_handler_rejects_bad_request:
  "proxy_execute_steps_validated bad_request upstream =
     [ResJson 400 (invalid_body [''project_id'', ''steps'', ''browser''])]"
  by (simp add: proxy_execute_steps_validated_def executeStepsSchema_def bad_request_def field_def
      positive_int_def steps_schema_def browserSchema_def fixture_ids_schema_def)

end
